theory Spec2Isabelle
  imports Main
begin

section \<open>The browser environment read by App.jsx\<close>

text \<open>
  The component reads three things from the browser: \<^verbatim>\<open>window.scrollY\<close>,
  \<^verbatim>\<open>document.getElementById\<close>, and the \<^verbatim>\<open>offsetTop\<close> / \<^verbatim>\<open>offsetHeight\<close> of the
  elements it finds. Pixel quantities are integers here (\<^verbatim>\<open>offsetTop\<close> and
  \<^verbatim>\<open>offsetHeight\<close> are integers in the DOM; the scroll offset is taken at whole pixels).
  A lookup that finds no element returns \<^verbatim>\<open>null\<close>, which is \<open>None\<close>.
\<close>

record element =
  offsetTop :: int
  offsetHeight :: int

record browser =
  scrollY :: int
  elements :: "string \<Rightarrow> element option"

definition getElementById :: "browser \<Rightarrow> string \<Rightarrow> element option" where
  "getElementById w i = elements w i"

text \<open>
  JavaScript raises a \<^verbatim>\<open>TypeError\<close> when a property is read, or a method called, on
  \<^verbatim>\<open>null\<close>. The accessors below keep that branch, so that the guards
  \<^verbatim>\<open>if (element)\<close> of the source are what keeps the handlers from failing.
\<close>

datatype js_error = TypeError

definition truthy :: "element option \<Rightarrow> bool" where
  "truthy v = (case v of None \<Rightarrow> False | Some _ \<Rightarrow> True)"

definition get_offsetTop :: "element option \<Rightarrow> js_error + int" where
  "get_offsetTop v = (case v of None \<Rightarrow> Inl TypeError | Some el \<Rightarrow> Inr (offsetTop el))"

definition get_offsetHeight :: "element option \<Rightarrow> js_error + int" where
  "get_offsetHeight v = (case v of None \<Rightarrow> Inl TypeError | Some el \<Rightarrow> Inr (offsetHeight el))"

datatype scroll_behavior = Smooth

record scroll_request =
  target :: element
  behavior :: scroll_behavior

definition scrollIntoView :: "element option \<Rightarrow> scroll_behavior \<Rightarrow> js_error + scroll_request" where
  "scrollIntoView v b =
     (case v of None \<Rightarrow> Inl TypeError | Some el \<Rightarrow> Inr \<lparr>target = el, behavior = b\<rparr>)"

section \<open>The component's data and state\<close>

record nav_item =
  nav_id :: string
  label :: string

definition navItems :: "nav_item list" where
  "navItems =
     [\<lparr>nav_id = ''home'', label = ''Home''\<rparr>,
      \<lparr>nav_id = ''about'', label = ''About''\<rparr>,
      \<lparr>nav_id = ''skills'', label = ''Skills''\<rparr>,
      \<lparr>nav_id = ''projects'', label = ''Projects''\<rparr>,
      \<lparr>nav_id = ''contact'', label = ''Contact''\<rparr>]"

text \<open>The two \<^verbatim>\<open>useState\<close> cells of \<^verbatim>\<open>App\<close>, with their initial values.\<close>

record app_state =
  isMenuOpen :: bool
  activeSection :: string

definition initial_state :: app_state where
  "initial_state = \<lparr>isMenuOpen = False, activeSection = ''home''\<rparr>"

definition setIsMenuOpen :: "bool \<Rightarrow> app_state \<Rightarrow> app_state" where
  "setIsMenuOpen b st = st\<lparr>isMenuOpen := b\<rparr>"

definition setActiveSection :: "string \<Rightarrow> app_state \<Rightarrow> app_state" where
  "setActiveSection s st = st\<lparr>activeSection := s\<rparr>"

section \<open>The handlers\<close>

text \<open>
  \<^verbatim>\<open>scrollToSection\<close>: look the element up, ask the browser to scroll to it when it
  exists, and close the menu in either case. The scroll request is returned beside the
  new state.
\<close>

definition scrollToSection ::
  "browser \<Rightarrow> string \<Rightarrow> app_state \<Rightarrow> js_error + (scroll_request option \<times> app_state)" where
  "scrollToSection w sectionId st =
     (let element = getElementById w sectionId in
      if truthy element then
        (case scrollIntoView element Smooth of
           Inl e \<Rightarrow> Inl e
         | Inr r \<Rightarrow> Inr (Some r, setIsMenuOpen False st))
      else Inr (None, setIsMenuOpen False st))"

text \<open>
  The body of the \<^verbatim>\<open>for (const section of sections)\<close> loop of \<^verbatim>\<open>handleScroll\<close>:
  the first section whose element exists and whose range holds \<open>scrollPosition\<close> is
  made active and the loop stops (\<^verbatim>\<open>break\<close>); a section with no element, or whose
  range does not hold the position, is passed over.
\<close>

fun handleScroll_loop ::
  "browser \<Rightarrow> int \<Rightarrow> string list \<Rightarrow> app_state \<Rightarrow> js_error + app_state" where
  "handleScroll_loop w scrollPosition [] st = Inr st"
| "handleScroll_loop w scrollPosition (section # rest) st =
     (let element = getElementById w section in
      if truthy element then
        (case get_offsetTop element of
           Inl e \<Rightarrow> Inl e
         | Inr oTop \<Rightarrow>
            (case get_offsetHeight element of
               Inl e \<Rightarrow> Inl e
             | Inr oHeight \<Rightarrow>
                if scrollPosition \<ge> oTop \<and> scrollPosition < oTop + oHeight
                then Inr (setActiveSection section st)
                else handleScroll_loop w scrollPosition rest st))
      else handleScroll_loop w scrollPosition rest st)"

definition section_ids :: "string list" where
  "section_ids = map nav_id navItems"

definition handleScroll :: "browser \<Rightarrow> app_state \<Rightarrow> js_error + app_state" where
  "handleScroll w st =
     (let sections = section_ids;
          scrollPosition = scrollY w + 100
      in handleScroll_loop w scrollPosition sections st)"

text \<open>The mobile menu button: \<^verbatim>\<open>onClick={() => setIsMenuOpen(!isMenuOpen)}\<close>.\<close>

definition toggleMenu :: "app_state \<Rightarrow> app_state" where
  "toggleMenu st = setIsMenuOpen (\<not> isMenuOpen st) st"

section \<open>A page session\<close>

text \<open>
  The events that reach the component's handlers: a scroll event (with the browser's
  geometry at that moment), a click on something that calls \<^verbatim>\<open>scrollToSection\<close>, and a
  click on the menu button. A session is a sequence of events from the initial state; an
  error in a handler ends it.
\<close>

datatype event =
  ScrollEvent browser
| SectionClick browser string
| MenuButtonClick

fun dispatch :: "event \<Rightarrow> app_state \<Rightarrow> js_error + app_state" where
  "dispatch (ScrollEvent w) st = handleScroll w st"
| "dispatch (SectionClick w sectionId) st =
     (case scrollToSection w sectionId st of Inl e \<Rightarrow> Inl e | Inr (r, st') \<Rightarrow> Inr st')"
| "dispatch MenuButtonClick st = Inr (toggleMenu st)"

fun run_session :: "event list \<Rightarrow> app_state \<Rightarrow> js_error + app_state" where
  "run_session [] st = Inr st"
| "run_session (ev # evs) st =
     (case dispatch ev st of Inl e \<Rightarrow> Inl e | Inr st' \<Rightarrow> run_session evs st')"

section \<open>Section geometry\<close>

text \<open>
  The test of the loop body on one section identifier: its element exists and
  \<open>offsetTop \<le> pos < offsetTop + offsetHeight\<close>.
\<close>

definition section_matches :: "browser \<Rightarrow> int \<Rightarrow> string \<Rightarrow> bool" where
  "section_matches w pos s =
     (case getElementById w s of
        None \<Rightarrow> False
      | Some el \<Rightarrow> offsetTop el \<le> pos \<and> pos < offsetTop el + offsetHeight el)"

text \<open>
  The sections that are rendered, in document order, each with its top offset and height:
  the identifiers whose element exists.
\<close>

fun rendered_sections :: "browser \<Rightarrow> string list \<Rightarrow> (string \<times> int \<times> int) list" where
  "rendered_sections w [] = []"
| "rendered_sections w (s # ss) =
     (case getElementById w s of
        None \<Rightarrow> rendered_sections w ss
      | Some el \<Rightarrow> (s, offsetTop el, offsetHeight el) # rendered_sections w ss)"

fun in_range :: "int \<Rightarrow> string \<times> int \<times> int \<Rightarrow> bool" where
  "in_range pos (s, t, h) = (t \<le> pos \<and> pos < t + h)"

text \<open>
  The tracker as the specification words it: add the bias of 100 to the offset, take the
  first section of the list whose range holds the biased offset, and keep the previous
  value when there is none.
\<close>

definition spec_tracker :: "int \<Rightarrow> (string \<times> int \<times> int) list \<Rightarrow> string \<Rightarrow> string" where
  "spec_tracker offset secs previous =
     (case find (in_range (offset + 100)) secs of
        None \<Rightarrow> previous
      | Some sec \<Rightarrow> fst sec)"


text \<open>
  Two ranges \<open>[t, t + h)\<close> and \<open>[t', t' + h')\<close> have no pixel in common when the smaller
  of the two ends is not above the larger of the two tops. Sections do not overlap when
  this holds of every two of them.
\<close>

fun ranges_apart :: "string \<times> int \<times> int \<Rightarrow> string \<times> int \<times> int \<Rightarrow> bool" where
  "ranges_apart (s, t, h) (s', t', h') = (min (t + h) (t' + h') \<le> max t t')"

fun non_overlapping :: "(string \<times> int \<times> int) list \<Rightarrow> bool" where
  "non_overlapping [] = True"
| "non_overlapping (x # xs) = (list_all (ranges_apart x) xs \<and> non_overlapping xs)"

text \<open>
  The layout of the specification's scenario: three sections of 800 pixels. The
  identifiers projects and contact have no element in it.
\<close>

definition scenario :: "int \<Rightarrow> browser" where
  "scenario y =
     \<lparr>scrollY = y,
      elements = map_of
        [(''home'', \<lparr>offsetTop = 0, offsetHeight = 800\<rparr>),
         (''about'', \<lparr>offsetTop = 800, offsetHeight = 800\<rparr>),
         (''skills'', \<lparr>offsetTop = 1600, offsetHeight = 800\<rparr>)]\<rparr>"

text \<open>
  A further layout, in which the home section is only 80 pixels tall, less than the bias.
\<close>

definition short_home_layout :: "int \<Rightarrow> browser" where
  "short_home_layout y =
     \<lparr>scrollY = y,
      elements = map_of
        [(''home'', \<lparr>offsetTop = 0, offsetHeight = 80\<rparr>),
         (''about'', \<lparr>offsetTop = 80, offsetHeight = 800\<rparr>)]\<rparr>"

section \<open>What one pass of the loop computes\<close>

lemma handleScroll_loop_find:
  "handleScroll_loop w pos ids st =
     Inr (case find (section_matches w pos) ids of
            None \<Rightarrow> st
          | Some s \<Rightarrow> setActiveSection s st)"
  by (induction ids)
     (simp_all add: Let_def truthy_def get_offsetTop_def get_offsetHeight_def
        section_matches_def split: option.splits)

lemma find_rendered_sections:
  "find (in_range pos) (rendered_sections w ids) =
     (case find (section_matches w pos) ids of
        None \<Rightarrow> None
      | Some s \<Rightarrow> map_option (\<lambda>el. (s, offsetTop el, offsetHeight el)) (getElementById w s))"
  by (induction ids) (auto simp add: section_matches_def split: option.splits)

lemma section_matches_element:
  "section_matches w pos s \<Longrightarrow> \<exists>el. getElementById w s = Some el"
  by (simp add: section_matches_def split: option.splits)

lemma find_section_matches_holds:
  "find (section_matches w pos) ids = Some s \<Longrightarrow> section_matches w pos s \<and> s \<in> set ids"
  by (induction ids) (auto split: if_splits)

lemma map_fst_filter_rendered:
  "map fst (filter (in_range pos) (rendered_sections w ids)) =
     filter (section_matches w pos) ids"
  by (induction ids) (auto simp add: section_matches_def split: option.splits)



lemma find_hd_filter:
  "find P xs = (case filter P xs of [] \<Rightarrow> None | x # _ \<Rightarrow> Some x)"
  by (induction xs) simp_all

lemma ranges_apart_not_both:
  "ranges_apart a b \<Longrightarrow> in_range pos a \<Longrightarrow> \<not> in_range pos b"
  by (cases a; cases b) (auto simp add: min_def max_def split: if_splits)

lemma non_overlapping_one_in_range:
  "non_overlapping secs \<Longrightarrow> length (filter (in_range pos) secs) \<le> 1"
proof (induction secs)
  case Nil
  then show ?case by simp
next
  case (Cons x secs)
  then have ih: "length (filter (in_range pos) secs) \<le> 1"
    by simp
  show ?case
  proof (cases "in_range pos x")
    case False
    with ih show ?thesis by simp
  next
    case True
    have "\<not> in_range pos y" if "y \<in> set secs" for y
    proof -
      from Cons.prems that have "ranges_apart x y"
        by (simp add: list_all_iff)
      with True show ?thesis
        using ranges_apart_not_both by blast
    qed
    then have "filter (in_range pos) secs = []"
      by (simp add: filter_empty_conv)
    with True show ?thesis by simp
  qed
qed


lemma non_overlapping_matches:
  "non_overlapping (rendered_sections w ids) \<Longrightarrow>
     filter (section_matches w pos) ids = []
     \<or> (\<exists>s. filter (section_matches w pos) ids = [s])"
proof -
  assume "non_overlapping (rendered_sections w ids)"
  then have "length (filter (in_range pos) (rendered_sections w ids)) \<le> 1"
    by (rule non_overlapping_one_in_range)
  then have "length (map fst (filter (in_range pos) (rendered_sections w ids))) \<le> 1"
    by simp
  then have le: "length (filter (section_matches w pos) ids) \<le> 1"
    by (simp only: map_fst_filter_rendered)
  show ?thesis
  proof (cases "filter (section_matches w pos) ids")
    case Nil
    then show ?thesis by simp
  next
    case (Cons a rest)
    with le have "rest = []" by simp
    with Cons show ?thesis by simp
  qed
qed

lemma handleScroll_sets_a_section:
  "\<exists>st'. handleScroll w st = Inr st' \<and> isMenuOpen st' = isMenuOpen st
     \<and> (activeSection st' = activeSection st \<or> activeSection st' \<in> set section_ids)"
proof (cases "find (section_matches w (scrollY w + 100)) section_ids")
  case None
  then show ?thesis
    by (simp add: handleScroll_def handleScroll_loop_find)
next
  case (Some s)
  then have "s \<in> set section_ids"
    using find_section_matches_holds by blast
  with Some show ?thesis
    by (simp add: handleScroll_def handleScroll_loop_find setActiveSection_def)
qed

lemma scrollToSection_result:
  "scrollToSection w sectionId st =
     Inr (map_option (\<lambda>el. \<lparr>target = el, behavior = Smooth\<rparr>) (getElementById w sectionId),
          st\<lparr>isMenuOpen := False\<rparr>)"
  by (simp add: scrollToSection_def Let_def truthy_def scrollIntoView_def setIsMenuOpen_def
      split: option.splits)

lemma dispatch_keeps_section_valid:
  "activeSection st \<in> set section_ids \<Longrightarrow>
     \<exists>st'. dispatch ev st = Inr st' \<and> activeSection st' \<in> set section_ids"
proof (cases ev)
  case (ScrollEvent w)
  assume "activeSection st \<in> set section_ids"
  with handleScroll_sets_a_section [of w st] ScrollEvent show ?thesis
    by auto
next
  case (SectionClick w sectionId)
  assume "activeSection st \<in> set section_ids"
  with SectionClick show ?thesis
    by (simp add: scrollToSection_result)
next
  case MenuButtonClick
  assume "activeSection st \<in> set section_ids"
  with MenuButtonClick show ?thesis
    by (simp add: toggleMenu_def setIsMenuOpen_def)
qed

lemma run_session_keeps_section_valid:
  "activeSection st \<in> set section_ids \<Longrightarrow>
     \<exists>st'. run_session evs st = Inr st' \<and> activeSection st' \<in> set section_ids"
proof (induction evs arbitrary: st)
  case Nil
  then show ?case by simp
next
  case (Cons ev evs)
  from Cons.prems obtain st1 where
    d: "dispatch ev st = Inr st1" and v: "activeSection st1 \<in> set section_ids"
    using dispatch_keeps_section_valid by blast
  from Cons.IH [OF v] d show ?case by simp
qed

lemma set_section_ids:
  "set section_ids = {''home'', ''about'', ''skills'', ''projects'', ''contact''}"
  by (simp add: section_ids_def navItems_def)

lemmas layout_eval =
  handleScroll_def section_ids_def navItems_def getElementById_def truthy_def
  get_offsetTop_def get_offsetHeight_def setActiveSection_def section_matches_def


lemma find_skips_missing:
  "find (section_matches w pos) (filter (\<lambda>s. truthy (getElementById w s)) ids) =
     find (section_matches w pos) ids"
  by (induction ids) (auto simp add: section_matches_def truthy_def split: option.splits)

text \<open>
  C1. The scroll tracker adds 100 to the scroll offset, goes through the rendered
  sections in document order, and sets the active section to the first one whose range
  \<open>[top, top + height)\<close> holds the biased offset; when there is none the active section
  keeps its previous value. The menu flag is not touched.
\<close>

theorem handleScroll_refines_spec_tracker:
  "handleScroll w st =
     Inr (st\<lparr>activeSection :=
            spec_tracker (scrollY w) (rendered_sections w section_ids) (activeSection st)\<rparr>)"
proof (cases "find (section_matches w (scrollY w + 100)) section_ids")
  case None
  then show ?thesis
    by (simp add: handleScroll_def handleScroll_loop_find spec_tracker_def
        find_rendered_sections)
next
  case (Some s)
  then obtain el where "getElementById w s = Some el"
    using find_section_matches_holds section_matches_element by blast
  with Some show ?thesis
    by (simp add: handleScroll_def handleScroll_loop_find spec_tracker_def
        find_rendered_sections setActiveSection_def)
qed

text \<open>
  C3. With the sections home \<open>[0, 800)\<close>, about \<open>[800, 1600)\<close> and skills
  \<open>[1600, 2400)\<close>, a pass at scroll offset 750 makes about the active section, and a pass
  at scroll offset 2500 leaves the state as it was, whatever it was.
\<close>

theorem handleScroll_scenario:
  "handleScroll (scenario 750) st = Inr (st\<lparr>activeSection := ''about''\<rparr>)
   \<and> handleScroll (scenario 2500) st = Inr st"
  by (simp add: handleScroll_def section_ids_def navItems_def scenario_def
      getElementById_def truthy_def get_offsetTop_def get_offsetHeight_def
      setActiveSection_def)

text \<open>
  C2. For every scroll offset whose biased value (offset + 100) lies within the range
  \<open>[top, top + height)\<close> of a section of the navigation list, a pass of the tracker makes
  that section the active one. The sections are those of the page: rendered regions whose
  ranges do not overlap, as vertically stacked sections are (\<open>stacked_non_overlapping\<close>).
\<close>

theorem handleScroll_reports_section_in_range:
  assumes "non_overlapping (rendered_sections w section_ids)"
    and "s \<in> set section_ids"
    and "getElementById w s = Some el"
    and "offsetTop el \<le> scrollY w + 100"
    and "scrollY w + 100 < offsetTop el + offsetHeight el"
  shows "handleScroll w st = Inr (st\<lparr>activeSection := s\<rparr>)"
proof -
  from assms(3-5) have "section_matches w (scrollY w + 100) s"
    by (simp add: section_matches_def)
  with assms(2) have mem: "s \<in> set (filter (section_matches w (scrollY w + 100)) section_ids)"
    by simp
  from assms(1) have
    "filter (section_matches w (scrollY w + 100)) section_ids = []
     \<or> (\<exists>s'. filter (section_matches w (scrollY w + 100)) section_ids = [s'])"
    by (rule non_overlapping_matches)
  then have "filter (section_matches w (scrollY w + 100)) section_ids = [s]"
  proof (elim disjE exE)
    assume e: "filter (section_matches w (scrollY w + 100)) section_ids = []"
    from mem show ?thesis
      unfolding e by simp
  next
    fix s'
    assume e: "filter (section_matches w (scrollY w + 100)) section_ids = [s']"
    from mem show ?thesis
      unfolding e by simp
  qed
  then have "find (section_matches w (scrollY w + 100)) section_ids = Some s"
    by (simp add: find_hd_filter)
  then show ?thesis
    by (simp add: handleScroll_def handleScroll_loop_find setActiveSection_def)
qed

theorem handleScroll_reports_section_in_range_witness:
  "non_overlapping (rendered_sections (scenario 750) section_ids)
   \<and> ''about'' \<in> set section_ids
   \<and> getElementById (scenario 750) ''about'' = Some \<lparr>offsetTop = 800, offsetHeight = 800\<rparr>
   \<and> (800::int) \<le> scrollY (scenario 750) + 100
   \<and> scrollY (scenario 750) + 100 < (800::int) + 800
   \<and> handleScroll (scenario 750) initial_state
       = Inr (initial_state\<lparr>activeSection := ''about''\<rparr>)"
proof -
  have apart: "non_overlapping (rendered_sections (scenario 750) section_ids)"
    by (simp add: section_ids_def navItems_def getElementById_def scenario_def)
  have mem: "''about'' \<in> set section_ids"
    by (simp add: section_ids_def navItems_def)
  have el: "getElementById (scenario 750) ''about''
              = Some \<lparr>offsetTop = 800, offsetHeight = 800\<rparr>"
    by (simp add: getElementById_def scenario_def)
  have lo: "offsetTop \<lparr>offsetTop = 800, offsetHeight = 800\<rparr> \<le> scrollY (scenario 750) + 100"
    by (simp add: scenario_def)
  have hi: "scrollY (scenario 750) + 100
              < offsetTop \<lparr>offsetTop = 800, offsetHeight = 800\<rparr>
                + offsetHeight \<lparr>offsetTop = 800, offsetHeight = 800\<rparr>"
    by (simp add: scenario_def)
  have lo': "(800::int) \<le> scrollY (scenario 750) + 100"
    using lo by simp
  have hi': "scrollY (scenario 750) + 100 < (800::int) + 800"
    using hi by simp
  from handleScroll_reports_section_in_range [OF apart mem el lo hi, of initial_state]
    apart mem el lo' hi'
  show ?thesis by blast
qed

text \<open>
  C4. The active section is always one of home, about, skills, projects, contact: the
  initial value is home, a pass of the scroll tracker from a state with a valid active
  section ends in a state with a valid active section, and so does every sequence of
  events of a page session from the initial state.
\<close>

theorem activeSection_always_a_section:
  "set section_ids = {''home'', ''about'', ''skills'', ''projects'', ''contact''}
   \<and> activeSection initial_state = ''home''
   \<and> (activeSection st \<in> set section_ids \<longrightarrow>
        (\<exists>st'. handleScroll w st = Inr st' \<and> activeSection st' \<in> set section_ids))
   \<and> (\<exists>st'. run_session evs initial_state = Inr st' \<and> activeSection st' \<in> set section_ids)"
proof -
  have init: "activeSection initial_state \<in> set section_ids"
    by (simp add: set_section_ids initial_state_def)
  have "activeSection st \<in> set section_ids \<longrightarrow>
        (\<exists>st'. handleScroll w st = Inr st' \<and> activeSection st' \<in> set section_ids)"
    using handleScroll_sets_a_section [of w st] by auto
  moreover have
    "\<exists>st'. run_session evs initial_state = Inr st' \<and> activeSection st' \<in> set section_ids"
    using init by (rule run_session_keeps_section_valid)
  moreover have "activeSection initial_state = ''home''"
    by (simp add: initial_state_def)
  ultimately show ?thesis
    using set_section_ids by blast
qed

theorem activeSection_always_a_section_witness:
  "activeSection (initial_state\<lparr>activeSection := ''skills''\<rparr>) \<in> set section_ids
   \<and> (\<exists>st'. handleScroll (scenario 750) (initial_state\<lparr>activeSection := ''skills''\<rparr>) = Inr st'
          \<and> activeSection st' \<in> set section_ids)
   \<and> (\<exists>st'. run_session
               [ScrollEvent (scenario 750), MenuButtonClick,
                SectionClick (scenario 750) ''contact'', ScrollEvent (scenario 2500)]
               initial_state = Inr st'
          \<and> activeSection st' \<in> set section_ids)"
proof -
  have valid: "activeSection (initial_state\<lparr>activeSection := ''skills''\<rparr>) \<in> set section_ids"
    by (simp add: section_ids_def navItems_def)
  from activeSection_always_a_section
    [of "initial_state\<lparr>activeSection := ''skills''\<rparr>" "scenario 750"
        "[ScrollEvent (scenario 750), MenuButtonClick,
          SectionClick (scenario 750) ''contact'', ScrollEvent (scenario 2500)]"]
    valid
  show ?thesis by blast
qed

text \<open>
  C5. A second pass of the tracker with the same scroll offset and the same geometry
  returns the state that the first pass returned.
\<close>

theorem handleScroll_idempotent:
  "\<exists>st'. handleScroll w st = Inr st' \<and> handleScroll w st' = Inr st'"
  by (cases "find (section_matches w (scrollY w + 100)) section_ids")
     (simp_all add: handleScroll_def handleScroll_loop_find setActiveSection_def)



text \<open>
  C7, as stated, fails: in the layout whose home section is 80 pixels tall, a pass at
  scroll offset 0 looks at the biased offset 100, which is below home and inside about,
  and makes about, the second section, active.
\<close>

theorem handleScroll_short_home_at_zero:
  "scrollY (short_home_layout 0) = 0
   \<and> handleScroll (short_home_layout 0) initial_state
       = Inr (initial_state\<lparr>activeSection := ''about''\<rparr>)
   \<and> ''about'' \<noteq> hd section_ids"
  by (simp add: layout_eval short_home_layout_def initial_state_def)

text \<open>
  C7, amended. When the scroll offset is 0 and the first section in document order is
  rendered with a range that holds the bias (top at most 100 and top + height more than
  100), a pass of the tracker makes the first section, home, the active one.
\<close>

theorem handleScroll_at_offset_zero:
  assumes "scrollY w = 0"
    and "getElementById w (hd section_ids) = Some el"
    and "offsetTop el \<le> 100"
    and "100 < offsetTop el + offsetHeight el"
  shows "handleScroll w st = Inr (st\<lparr>activeSection := hd section_ids\<rparr>)
         \<and> hd section_ids = ''home''"
proof -
  have ids: "section_ids = ''home'' # [''about'', ''skills'', ''projects'', ''contact'']"
    by (simp add: section_ids_def navItems_def)
  have first: "hd section_ids = ''home''"
    by (simp add: section_ids_def navItems_def)
  from assms(2) have "getElementById w ''home'' = Some el"
    unfolding first .
  with assms(1,3,4) have "section_matches w (scrollY w + 100) ''home''"
    by (simp add: section_matches_def)
  then have "find (section_matches w (scrollY w + 100)) section_ids = Some ''home''"
    by (simp add: ids)
  then have "handleScroll w st = Inr (st\<lparr>activeSection := ''home''\<rparr>)"
    by (simp add: handleScroll_def handleScroll_loop_find setActiveSection_def)
  then show ?thesis
    by (simp add: first)
qed

theorem handleScroll_at_offset_zero_witness:
  "scrollY (scenario 0) = 0
   \<and> getElementById (scenario 0) (hd section_ids) = Some \<lparr>offsetTop = 0, offsetHeight = 800\<rparr>
   \<and> handleScroll (scenario 0) (initial_state\<lparr>activeSection := ''skills''\<rparr>)
       = Inr (initial_state\<lparr>activeSection := ''home''\<rparr>)"
proof -
  have y: "scrollY (scenario 0) = 0"
    by (simp add: scenario_def)
  have el: "getElementById (scenario 0) (hd section_ids)
              = Some \<lparr>offsetTop = 0, offsetHeight = 800\<rparr>"
    by (simp add: section_ids_def navItems_def getElementById_def scenario_def)
  have lo: "offsetTop \<lparr>offsetTop = 0, offsetHeight = 800\<rparr> \<le> 100"
    by simp
  have hi: "100 < offsetTop \<lparr>offsetTop = 0, offsetHeight = 800\<rparr>
                  + offsetHeight \<lparr>offsetTop = 0, offsetHeight = 800\<rparr>"
    by simp
  from handleScroll_at_offset_zero
    [OF y el lo hi, of "initial_state\<lparr>activeSection := ''skills''\<rparr>"] y el
  show ?thesis by simp
qed

text \<open>
  C8. The tracker never fails: for every browser state and every state of the component
  a pass returns a state, and so does the loop for every position and every list of
  section identifiers. A section whose element is missing is passed over: the loop
  returns the same state on the list with those sections removed. The active section of
  the state returned is the previous one or one of the identifiers of the list.
\<close>

theorem handleScroll_never_fails:
  "(\<exists>st'. handleScroll w st = Inr st')
   \<and> (\<exists>st'. handleScroll_loop w pos ids st = Inr st'
          \<and> handleScroll_loop w pos (filter (\<lambda>s. truthy (getElementById w s)) ids) st = Inr st'
          \<and> (activeSection st' = activeSection st \<or> activeSection st' \<in> set ids))"
proof -
  have "\<exists>st'. handleScroll w st = Inr st'"
    by (simp add: handleScroll_def handleScroll_loop_find)
  moreover have
    "handleScroll_loop w pos (filter (\<lambda>s. truthy (getElementById w s)) ids) st
       = handleScroll_loop w pos ids st"
    by (simp only: handleScroll_loop_find find_skips_missing)
  moreover have
    "\<exists>st'. handleScroll_loop w pos ids st = Inr st'
       \<and> (activeSection st' = activeSection st \<or> activeSection st' \<in> set ids)"
  proof (cases "find (section_matches w pos) ids")
    case None
    then show ?thesis by (simp add: handleScroll_loop_find)
  next
    case (Some s)
    then have "s \<in> set ids"
      using find_section_matches_holds by blast
    with Some show ?thesis
      by (simp add: handleScroll_loop_find setActiveSection_def)
  qed
  ultimately show ?thesis by auto
qed

text \<open>
  C9, as stated, fails: the component has a second mutable value, the menu flag, and a
  click on the menu button changes it.
\<close>

theorem menu_button_changes_menu_flag:
  "isMenuOpen initial_state = False
   \<and> dispatch MenuButtonClick initial_state = Inr (initial_state\<lparr>isMenuOpen := True\<rparr>)
   \<and> initial_state\<lparr>isMenuOpen := True\<rparr> \<noteq> initial_state"
  by (simp add: toggleMenu_def setIsMenuOpen_def initial_state_def)

text \<open>
  C9, amended. The runtime state is two values, the active section and the menu flag.
  A scroll event sets the active section to the first section of the navigation list
  whose range holds the biased offset and leaves the state as it was when there is none;
  it never changes the menu flag. A click that calls \<^verbatim>\<open>scrollToSection\<close> sets the menu
  flag to false and changes nothing else; a click on the menu button negates the menu
  flag and changes nothing else.
\<close>

theorem each_event_writes_one_cell:
  "dispatch (ScrollEvent w) st =
     Inr (case find (section_matches w (scrollY w + 100)) section_ids of
            None \<Rightarrow> st
          | Some s \<Rightarrow> st\<lparr>activeSection := s\<rparr>)
   \<and> dispatch (SectionClick w sectionId) st = Inr (st\<lparr>isMenuOpen := False\<rparr>)
   \<and> dispatch MenuButtonClick st = Inr (st\<lparr>isMenuOpen := \<not> isMenuOpen st\<rparr>)"
proof -
  have "handleScroll w st =
     Inr (case find (section_matches w (scrollY w + 100)) section_ids of
            None \<Rightarrow> st
          | Some s \<Rightarrow> st\<lparr>activeSection := s\<rparr>)"
    by (simp add: handleScroll_def handleScroll_loop_find setActiveSection_def
        split: option.splits)
  then show ?thesis
    by (simp add: scrollToSection_result toggleMenu_def setIsMenuOpen_def)
qed

text \<open>
  C10. For every section identifier, \<^verbatim>\<open>scrollToSection\<close> returns a state whose menu flag
  is false and whose active section is the one it was given; it asks for a smooth scroll
  to the element when there is one and for nothing when there is none.
\<close>

theorem scrollToSection_closes_menu:
  "scrollToSection w sectionId st =
     Inr (map_option (\<lambda>el. \<lparr>target = el, behavior = Smooth\<rparr>) (getElementById w sectionId),
          st\<lparr>isMenuOpen := False\<rparr>)
   \<and> (\<exists>r st'. scrollToSection w sectionId st = Inr (r, st')
          \<and> isMenuOpen st' = False \<and> activeSection st' = activeSection st)
   \<and> getElementById (scenario 0) ''contact'' = None
   \<and> scrollToSection (scenario 0) ''contact'' st = Inr (None, st\<lparr>isMenuOpen := False\<rparr>)"
  by (simp add: scrollToSection_result) (simp add: getElementById_def scenario_def)

end
